theory Spec2Isabelle
  imports Complex_Main "HOL-Library.List_Lexorder" "HOL-Library.Product_Lexorder"
begin

section \<open>Python values\<close>

text \<open>
  A Python \<open>str\<close> is the list of its code points. ASCII literals are written through
  \<open>ascii\<close>; Hangul literals are spelled out as code points.
\<close>

type_synonym ustr = "nat list"

definition ascii :: "string \<Rightarrow> ustr" where
  "ascii s = map of_char s"

text \<open>
  A decoded JSON value, as \<open>json.loads\<close> returns it. A \<open>dict\<close> is the list of its items in
  insertion order; lookups read the first item with the key, \<open>keys()\<close> is the list of first
  components. A float is carried by its value and never computed with: only its truth
  value is read.
\<close>

datatype json =
    JNone
  | JBool bool
  | JInt int
  | JFloat real
  | JStr ustr
  | JList "json list"
  | JDict "(ustr \<times> json) list"

type_synonym dict = "(ustr \<times> json) list"

text \<open>The truth value of a Python object (\<open>not x\<close>, \<open>x or y\<close>, \<open>if x\<close>).\<close>

fun truthy :: "json \<Rightarrow> bool" where
  "truthy JNone = False"
| "truthy (JBool b) = b"
| "truthy (JInt i) = (i \<noteq> 0)"
| "truthy (JFloat x) = (x \<noteq> 0)"
| "truthy (JStr s) = (s \<noteq> [])"
| "truthy (JList xs) = (xs \<noteq> [])"
| "truthy (JDict kvs) = (kvs \<noteq> [])"

text \<open>
  The exceptions the modelled code can raise, with what they were raised on. A function
  that can raise returns \<open>exn + 'a\<close>, \<open>Inl\<close> for the exception.
\<close>

datatype exn =
    ValueError
  | AttributeError json ustr
  | TypeError json ustr
  | KeyError ustr
  | UnboundLocalError ustr
  | RequestException

text \<open>A sequence of results, stopped by the first exception as a loop is.\<close>

fun sequence_list :: "(exn + 'a) list \<Rightarrow> exn + 'a list" where
  "sequence_list [] = Inr []"
| "sequence_list (x # xs) =
     (case x of
        Inl e \<Rightarrow> Inl e
      | Inr v \<Rightarrow> (case sequence_list xs of Inl e \<Rightarrow> Inl e | Inr vs \<Rightarrow> Inr (v # vs)))"

section \<open>utils/response\_cleaner.py\<close>

subsection \<open>The regular expressions and \<open>str.strip\<close>\<close>

abbreviation (input) LT :: nat where "LT \<equiv> 60"
abbreviation (input) GT :: nat where "GT \<equiv> 62"
abbreviation (input) AMP :: nat where "AMP \<equiv> 38"
abbreviation (input) HASH :: nat where "HASH \<equiv> 35"
abbreviation (input) SEMI :: nat where "SEMI \<equiv> 59"
abbreviation (input) SP :: nat where "SP \<equiv> 32"

text \<open>
  \<open>re.sub(r'<[^>]+>', '', text)\<close>: scanning from the left, a \<open><\<close> followed by at least one
  character other than \<open>>\<close> and then a \<open>>\<close> is removed up to that first \<open>>\<close>; the scan goes on
  after it. Any other character is kept.
\<close>

function strip_tags :: "ustr \<Rightarrow> ustr" where
  "strip_tags [] = []"
| "strip_tags (c # cs) =
     (if c = LT \<and> takeWhile (\<lambda>d. d \<noteq> GT) cs \<noteq> [] \<and> dropWhile (\<lambda>d. d \<noteq> GT) cs \<noteq> []
      then strip_tags (tl (dropWhile (\<lambda>d. d \<noteq> GT) cs))
      else c # strip_tags cs)"
  by pat_completeness auto
termination
proof (relation "measure length")
  fix c :: nat and cs :: ustr
  have "length (tl (dropWhile (\<lambda>d. d \<noteq> GT) cs)) \<le> length cs"
    using length_dropWhile_le [of "\<lambda>d. d \<noteq> GT" cs] by simp
  then show "(tl (dropWhile (\<lambda>d. d \<noteq> GT) cs), c # cs) \<in> measure length"
    by simp
qed simp_all

text \<open>
  The characters \<open>\s\<close> matches in a \<open>str\<close> pattern, which are also the ones \<open>str.strip()\<close>
  removes: those for which \<open>str.isspace\<close> holds.
\<close>

definition is_space :: "nat \<Rightarrow> bool" where
  "is_space c \<longleftrightarrow>
     (0x9 \<le> c \<and> c \<le> 0xD) \<or> (0x1C \<le> c \<and> c \<le> 0x20) \<or> c = 0x85 \<or> c = 0xA0 \<or> c = 0x1680 \<or>
     (0x2000 \<le> c \<and> c \<le> 0x200A) \<or> c = 0x2028 \<or> c = 0x2029 \<or> c = 0x202F \<or> c = 0x205F \<or>
     c = 0x3000"

text \<open>\<open>re.sub(r'\s+', ' ', text)\<close>: every maximal run of white space becomes one space.\<close>

function collapse_ws :: "ustr \<Rightarrow> ustr" where
  "collapse_ws [] = []"
| "collapse_ws (c # cs) =
     (if is_space c then SP # collapse_ws (dropWhile is_space cs) else c # collapse_ws cs)"
  by pat_completeness auto
termination
proof (relation "measure length")
  fix c :: nat and cs :: ustr
  show "(dropWhile is_space cs, c # cs) \<in> measure length"
    by (simp add: length_dropWhile_le less_Suc_eq_le)
qed simp_all

definition strip :: "ustr \<Rightarrow> ustr" where
  "strip s = rev (dropWhile is_space (rev (dropWhile is_space s)))"

subsection \<open>\<open>html.unescape\<close> of the standard library\<close>

text \<open>
  \<open>html.unescape\<close> is the standard library's; it is modelled from its source
  (\<open>html/__init__.py\<close>). The table of named references \<open>html.entities.html5\<close> (2231
  entries) is a parameter \<open>html5\<close>. \<open>int()\<close> of a decimal digit string raises \<open>ValueError\<close> when
  the string has more digits than the interpreter's limit (4300 by default, leading zeros
  counted); in base 16 there is no limit.
\<close>

definition max_str_digits :: nat where
  "max_str_digits = 4300"

type_synonym entities = "ustr \<rightharpoonup> ustr"

definition is_digit :: "nat \<Rightarrow> bool" where
  "is_digit c \<longleftrightarrow> 48 \<le> c \<and> c \<le> 57"

definition is_hex :: "nat \<Rightarrow> bool" where
  "is_hex c \<longleftrightarrow> is_digit c \<or> (97 \<le> c \<and> c \<le> 102) \<or> (65 \<le> c \<and> c \<le> 70)"

text \<open>The class \<open>[^\t\n\f <&#;]\<close>.\<close>

definition is_name_char :: "nat \<Rightarrow> bool" where
  "is_name_char c \<longleftrightarrow> c \<notin> {9, 10, 12, SP, LT, AMP, HASH, SEMI}"

text \<open>The optional \<open>;\<close> that ends each alternative: what it takes and what is left.\<close>

fun opt_semi :: "ustr \<Rightarrow> ustr \<times> ustr" where
  "opt_semi [] = ([], [])"
| "opt_semi (c # cs) = (if c = SEMI then ([SEMI], cs) else ([], c # cs))"

text \<open>
  The pattern \<open>_charref\<close> tried right after an \<open>&\<close>:
  \<open>#[0-9]+;?\<close>, else \<open>#[xX][0-9a-fA-F]+;?\<close>, else \<open>[^\t\n\f <&#;]{1,32};?\<close>.
  The result is group 1 and the rest of the text after the match.
\<close>

definition match_charref :: "ustr \<Rightarrow> (ustr \<times> ustr) option" where
  "match_charref cs =
     (case cs of
        [] \<Rightarrow> None
      | c # r \<Rightarrow>
          if c = HASH then
            (if takeWhile is_digit r \<noteq> [] then
               (case opt_semi (dropWhile is_digit r) of
                  (semi, rest) \<Rightarrow> Some (c # takeWhile is_digit r @ semi, rest))
             else
               (case r of
                  [] \<Rightarrow> None
                | x # h \<Rightarrow>
                    if (x = 120 \<or> x = 88) \<and> takeWhile is_hex h \<noteq> [] then
                      (case opt_semi (dropWhile is_hex h) of
                         (semi, rest) \<Rightarrow> Some (c # x # takeWhile is_hex h @ semi, rest))
                    else None))
          else
            (if take 32 (takeWhile is_name_char cs) = [] then None
             else
               (case opt_semi (drop (length (take 32 (takeWhile is_name_char cs))) cs) of
                  (semi, rest) \<Rightarrow> Some (take 32 (takeWhile is_name_char cs) @ semi, rest))))"

definition invalid_charrefs :: "(nat \<times> nat) list" where
  "invalid_charrefs =
     [(0x00, 0xfffd), (0x0d, 0x0d), (0x80, 0x20ac), (0x81, 0x81), (0x82, 0x201a),
      (0x83, 0x0192), (0x84, 0x201e), (0x85, 0x2026), (0x86, 0x2020), (0x87, 0x2021),
      (0x88, 0x02c6), (0x89, 0x2030), (0x8a, 0x0160), (0x8b, 0x2039), (0x8c, 0x0152),
      (0x8d, 0x8d), (0x8e, 0x017d), (0x8f, 0x8f), (0x90, 0x90), (0x91, 0x2018),
      (0x92, 0x2019), (0x93, 0x201c), (0x94, 0x201d), (0x95, 0x2022), (0x96, 0x2013),
      (0x97, 0x2014), (0x98, 0x02dc), (0x99, 0x2122), (0x9a, 0x0161), (0x9b, 0x203a),
      (0x9c, 0x0153), (0x9d, 0x9d), (0x9e, 0x017e), (0x9f, 0x0178)]"

definition invalid_codepoints :: "nat list" where
  "invalid_codepoints =
     [0x1..<0x9] @ [0xe..<0x20] @ [0x7f..<0xa0] @ [0xfdd0..<0xfdf0] @
     [0xb, 0xfffe, 0xffff, 0x1fffe, 0x1ffff, 0x2fffe, 0x2ffff, 0x3fffe, 0x3ffff,
      0x4fffe, 0x4ffff, 0x5fffe, 0x5ffff, 0x6fffe, 0x6ffff, 0x7fffe, 0x7ffff,
      0x8fffe, 0x8ffff, 0x9fffe, 0x9ffff, 0xafffe, 0xaffff, 0xbfffe, 0xbffff,
      0xcfffe, 0xcffff, 0xdfffe, 0xdffff, 0xefffe, 0xeffff, 0xffffe, 0xfffff,
      0x10fffe, 0x10ffff]"

definition digit_val :: "nat \<Rightarrow> nat" where
  "digit_val c = (if is_digit c then c - 48 else if 97 \<le> c then c - 87 else c - 55)"

definition int_of_digits :: "nat \<Rightarrow> ustr \<Rightarrow> nat" where
  "int_of_digits base ds = foldl (\<lambda>acc c. acc * base + digit_val c) 0 ds"

definition rstrip_semi :: "ustr \<Rightarrow> ustr" where
  "rstrip_semi s = rev (dropWhile (\<lambda>c. c = SEMI) (rev s))"

text \<open>
  The loop \<open>for x in range(len(s)-1, 1, -1)\<close> of \<open>_replace_charref\<close>: the longest proper
  prefix of at least two characters that is in the table.
\<close>

fun longest_prefix :: "entities \<Rightarrow> ustr \<Rightarrow> nat \<Rightarrow> ustr option" where
  "longest_prefix html5 s 0 = None"
| "longest_prefix html5 s (Suc x) =
     (if Suc x \<le> 1 then None
      else case html5 (take (Suc x) s) of
             Some v \<Rightarrow> Some (v @ drop (Suc x) s)
           | None \<Rightarrow> longest_prefix html5 s x)"

text \<open>
  \<open>_replace_charref\<close> on group 1 of a match. A group that starts with \<open>#\<close> has at least one
  more character, so \<open>s[1]\<close> exists.
\<close>

definition charref_of_num :: "nat \<Rightarrow> ustr" where
  "charref_of_num num =
     (case map_of invalid_charrefs num of
        Some c \<Rightarrow> [c]
      | None \<Rightarrow>
          if (0xD800 \<le> num \<and> num \<le> 0xDFFF) \<or> num > 0x10FFFF then [0xFFFD]
          else if num \<in> set invalid_codepoints then []
          else [num])"

definition replace_charref :: "entities \<Rightarrow> ustr \<Rightarrow> exn + ustr" where
  "replace_charref html5 s =
     (if take 1 s = [HASH] then
        (if take 1 (drop 1 s) = [120] \<or> take 1 (drop 1 s) = [88]
         then Inr (charref_of_num (int_of_digits 16 (rstrip_semi (drop 2 s))))
         else if length (rstrip_semi (drop 1 s)) > max_str_digits then Inl ValueError
         else Inr (charref_of_num (int_of_digits 10 (rstrip_semi (drop 1 s)))))
      else
        (case html5 s of
           Some v \<Rightarrow> Inr v
         | None \<Rightarrow>
             (case longest_prefix html5 s (length s - 1) of
                Some v \<Rightarrow> Inr v
              | None \<Rightarrow> Inr (AMP # s))))"

text \<open>
  \<open>_charref.sub(_replace_charref, s)\<close>: the replacement text is not scanned again, and an
  exception of a replacement ends the substitution.
\<close>

function charref_sub :: "entities \<Rightarrow> ustr \<Rightarrow> exn + ustr" where
  "charref_sub html5 [] = Inr []"
| "charref_sub html5 (c # cs) =
     (if c = AMP then
        (case match_charref cs of
           Some (g, rest) \<Rightarrow>
             (case replace_charref html5 g of
                Inl e \<Rightarrow> Inl e
              | Inr r \<Rightarrow>
                  (case charref_sub html5 rest of Inl e \<Rightarrow> Inl e | Inr t \<Rightarrow> Inr (r @ t)))
         | None \<Rightarrow>
             (case charref_sub html5 cs of Inl e \<Rightarrow> Inl e | Inr t \<Rightarrow> Inr (c # t)))
      else (case charref_sub html5 cs of Inl e \<Rightarrow> Inl e | Inr t \<Rightarrow> Inr (c # t)))"
  by pat_completeness auto
termination
proof (relation "measure (\<lambda>(html5, s). length s)")
  fix html5 :: entities and c :: nat and cs g rest :: ustr and x2 :: "ustr \<times> ustr"
  assume m: "match_charref cs = Some x2" and x2: "(g, rest) = x2"
  have semi: "length (snd (opt_semi xs)) \<le> length xs" for xs
    by (cases xs) simp_all
  have d: "length (snd (opt_semi (dropWhile P ys))) \<le> length ys" for P ys
    using semi [of "dropWhile P ys"] length_dropWhile_le [of P ys] by linarith
  have n: "length (snd (opt_semi (drop k cs))) \<le> length cs" for k
    using semi [of "drop k cs"] by simp
  have "length rest \<le> length cs"
  proof (cases cs)
    case Nil
    with m show ?thesis by (simp add: match_charref_def)
  next
    case (Cons a r)
    show ?thesis
    proof (cases "a = HASH")
      case True
      show ?thesis
      proof (cases "takeWhile is_digit r \<noteq> []")
        case True
        with m x2 Cons \<open>a = HASH\<close> have "rest = snd (opt_semi (dropWhile is_digit r))"
          by (auto simp add: match_charref_def split: prod.splits)
        with d [of is_digit r] Cons show ?thesis by simp
      next
        case False
        with m x2 Cons \<open>a = HASH\<close> obtain x h
          where "r = x # h" and "rest = snd (opt_semi (dropWhile is_hex h))"
          by (auto simp add: match_charref_def split: prod.splits list.splits if_splits)
        with d [of is_hex h] Cons show ?thesis by simp
      qed
    next
      case False
      with m x2 Cons
      have "rest = snd (opt_semi (drop (length (take 32 (takeWhile is_name_char cs))) cs))"
        by (auto simp add: match_charref_def split: prod.splits if_splits)
      with n show ?thesis by simp
    qed
  qed
  then show "((html5, rest), (html5, c # cs)) \<in> measure (\<lambda>(html5, s). length s)"
    by simp
qed simp_all

definition unescape :: "entities \<Rightarrow> ustr \<Rightarrow> exn + ustr" where
  "unescape html5 s = (if AMP \<notin> set s then Inr s else charref_sub html5 s)"

subsection \<open>The sanitizer\<close>

text \<open>
  \<open>clean_html_tags\<close>: a falsy or non-string argument comes back as \<open>text or ""\<close>; a string
  has its tags removed, its character references decoded, its white space collapsed and
  is stripped. It raises what \<open>html.unescape\<close> raises.
\<close>

definition clean_html_tags :: "entities \<Rightarrow> json \<Rightarrow> exn + json" where
  "clean_html_tags html5 text =
     (case text of
        JStr s \<Rightarrow>
          if s = [] then Inr (JStr [])
          else
            (case unescape html5 (strip_tags s) of
               Inl e \<Rightarrow> Inl e
             | Inr u \<Rightarrow> Inr (JStr (strip (collapse_ws u))))
      | v \<Rightarrow> if truthy v then Inr v else Inr (JStr []))"

text \<open>\<open>fields_to_clean and key not in fields_to_clean\<close>\<close>

definition not_listed :: "ustr list option \<Rightarrow> ustr \<Rightarrow> bool" where
  "not_listed fields_to_clean key =
     (case fields_to_clean of None \<Rightarrow> False | Some fs \<Rightarrow> fs \<noteq> [] \<and> key \<notin> set fs)"

text \<open>
  \<open>clean_dict_values\<close> and \<open>clean_list_values\<close>. An argument that is falsy or of the other
  type comes back as \<open>data or {}\<close> (\<open>data or []\<close>); the items are visited in order, and an
  exception of \<open>clean_html_tags\<close> ends the visit.
\<close>

function clean_dict_values :: "entities \<Rightarrow> json \<Rightarrow> ustr list option \<Rightarrow> exn + json"
  and clean_list_values :: "entities \<Rightarrow> json \<Rightarrow> ustr list option \<Rightarrow> exn + json" where
  "clean_dict_values html5 (JDict kvs) fields_to_clean =
     (if kvs = [] then Inr (JDict [])
      else map_sum id JDict (sequence_list (map (\<lambda>(key, value).
             map_sum id (Pair key)
               (if not_listed fields_to_clean key then Inr value
                else case value of
                       JStr s \<Rightarrow> clean_html_tags html5 value
                     | JDict d \<Rightarrow> clean_dict_values html5 value fields_to_clean
                     | JList l \<Rightarrow> clean_list_values html5 value fields_to_clean
                     | _ \<Rightarrow> Inr value)) kvs)))"
| "clean_dict_values html5 JNone fields_to_clean = Inr (JDict [])"
| "clean_dict_values html5 (JBool b) fields_to_clean = Inr (if b then JBool b else JDict [])"
| "clean_dict_values html5 (JInt i) fields_to_clean = Inr (if i \<noteq> 0 then JInt i else JDict [])"
| "clean_dict_values html5 (JFloat x) fields_to_clean = Inr (if x \<noteq> 0 then JFloat x else JDict [])"
| "clean_dict_values html5 (JStr s) fields_to_clean = Inr (if s \<noteq> [] then JStr s else JDict [])"
| "clean_dict_values html5 (JList l) fields_to_clean = Inr (if l \<noteq> [] then JList l else JDict [])"
| "clean_list_values html5 (JList xs) fields_to_clean =
     (if xs = [] then Inr (JList [])
      else map_sum id JList (sequence_list (map (\<lambda>item.
             case item of
               JDict d \<Rightarrow> clean_dict_values html5 item fields_to_clean
             | JStr s \<Rightarrow> clean_html_tags html5 item
             | JList l \<Rightarrow> clean_list_values html5 item fields_to_clean
             | _ \<Rightarrow> Inr item) xs)))"
| "clean_list_values html5 JNone fields_to_clean = Inr (JList [])"
| "clean_list_values html5 (JBool b) fields_to_clean = Inr (if b then JBool b else JList [])"
| "clean_list_values html5 (JInt i) fields_to_clean = Inr (if i \<noteq> 0 then JInt i else JList [])"
| "clean_list_values html5 (JFloat x) fields_to_clean = Inr (if x \<noteq> 0 then JFloat x else JList [])"
| "clean_list_values html5 (JStr s) fields_to_clean = Inr (if s \<noteq> [] then JStr s else JList [])"
| "clean_list_values html5 (JDict d) fields_to_clean = Inr (if d \<noteq> [] then JDict d else JList [])"
  by pat_completeness auto
termination
proof -
  have mem: "x \<in> set xs \<Longrightarrow> size x < Suc (size_list size xs)" for x :: json and xs
    by (induction xs) auto
  have memp: "(a, v) \<in> set kvs \<Longrightarrow> size v < Suc (size_list (size_prod (\<lambda>x. 0) size) kvs)"
    for a :: ustr and v :: json and kvs
    by (induction kvs) auto
  show ?thesis
    apply (relation "measure (\<lambda>x. case x of Inl (h, v, f) \<Rightarrow> size v | Inr (h, v, f) \<Rightarrow> size v)")
        apply simp
       apply (auto dest: mem memp)
    done
qed

text \<open>
  The nineteen field names \<open>clean_search_result\<close> cleans, in the order of the source
  (Hangul, written as code points; two of them hold an underscore, \<open>0x5F\<close>).
\<close>

definition search_result_fields :: "ustr list" where
  "search_result_fields =
     [[0xBC95, 0xB839, 0xBA85],
      [0xBC95, 0xB839, 0xBA85, 0xD55C, 0xAE00],
      [0xBC95, 0xB839, 0xBA85, 0x5F, 0xD55C, 0xAE00],
      [0xBC95, 0xB839, 0xBA85, 0x5F, 0xC601, 0xBB38],
      [0xC0AC, 0xAC74, 0xBA85],
      [0xC548, 0xAC74, 0xBA85],
      [0xACB0, 0xC815, 0xBB38, 0xBA85],
      [0xD589, 0xC815, 0xADDC, 0xCE59, 0xBA85],
      [0xC790, 0xCE58, 0xBC95, 0xADDC, 0xBA85],
      [0xC870, 0xC57D, 0xBA85],
      [0xC6A9, 0xC5B4, 0xBA85],
      [0xD574, 0xC11D, 0xBA85],
      [0xC870, 0xBB38, 0xB0B4, 0xC6A9],
      [0xC870, 0xBB38, 0xC81C, 0xBAA9],
      [0xD310, 0xACB0, 0xC694, 0xC9C0],
      [0xACB0, 0xC815, 0xC694, 0xC9C0],
      [0xC774, 0xC720],
      [0xCC38, 0xC870, 0xC870, 0xBB38],
      [0xCC38, 0xC870, 0xD310, 0xB840]]"

definition clean_search_result :: "entities \<Rightarrow> json \<Rightarrow> exn + json" where
  "clean_search_result html5 result = clean_dict_values html5 result (Some search_result_fields)"

section \<open>utils/response\_parser.py\<close>

text \<open>
  \<open>RESPONSE_STRUCTURE_MAP\<close>, in the order of the source: target, outer key, inner key.
  The inner key of \<open>lstrmAI\<close> is Hangul (U+BC95 U+B839 U+C6A9 U+C5B4).
\<close>

definition RESPONSE_STRUCTURE_MAP :: "(ustr \<times> ustr \<times> ustr) list" where
  "RESPONSE_STRUCTURE_MAP =
     [(ascii ''law'', ascii ''LawSearch'', ascii ''law''),
      (ascii ''elaw'', ascii ''LawSearch'', ascii ''law''),
      (ascii ''eflaw'', ascii ''LawSearch'', ascii ''law''),
      (ascii ''prec'', ascii ''PrecSearch'', ascii ''prec''),
      (ascii ''detc'', ascii ''DetcSearch'', ascii ''Detc''),
      (ascii ''expc'', ascii ''Expc'', ascii ''expc''),
      (ascii ''decc'', ascii ''Decc'', ascii ''decc''),
      (ascii ''ppc'', ascii ''Ppc'', ascii ''ppc''),
      (ascii ''fsc'', ascii ''Fsc'', ascii ''fsc''),
      (ascii ''ftc'', ascii ''Ftc'', ascii ''ftc''),
      (ascii ''acr'', ascii ''Acr'', ascii ''acr''),
      (ascii ''nlrc'', ascii ''Nlrc'', ascii ''nlrc''),
      (ascii ''ecc'', ascii ''Ecc'', ascii ''ecc''),
      (ascii ''sfc'', ascii ''Sfc'', ascii ''sfc''),
      (ascii ''nhrck'', ascii ''Nhrck'', ascii ''nhrck''),
      (ascii ''kcc'', ascii ''Kcc'', ascii ''kcc''),
      (ascii ''iaciac'', ascii ''Iaciac'', ascii ''iaciac''),
      (ascii ''oclt'', ascii ''Oclt'', ascii ''oclt''),
      (ascii ''eiac'', ascii ''Eiac'', ascii ''eiac''),
      (ascii ''admrul'', ascii ''AdmRulSearch'', ascii ''admrul''),
      (ascii ''ordin'', ascii ''OrdinSearch'', ascii ''law''),
      (ascii ''ordinfd'', ascii ''OrdinSearch'', ascii ''ordinfd''),
      (ascii ''trty'', ascii ''TrtySearch'', ascii ''Trty''),
      (ascii ''lstrm'', ascii ''LsTrmSearch'', ascii ''lstrm''),
      (ascii ''lstrmAI'', ascii ''lstrmAISearch'', [0xBC95, 0xB839, 0xC6A9, 0xC5B4]),
      (ascii ''moefCgmExpc'', ascii ''CgmExpc'', ascii ''cgmExpc''),
      (ascii ''molitCgmExpc'', ascii ''CgmExpc'', ascii ''cgmExpc''),
      (ascii ''moelCgmExpc'', ascii ''CgmExpc'', ascii ''cgmExpc''),
      (ascii ''mofCgmExpc'', ascii ''CgmExpc'', ascii ''cgmExpc''),
      (ascii ''moisCgmExpc'', ascii ''CgmExpc'', ascii ''cgmExpc''),
      (ascii ''meCgmExpc'', ascii ''CgmExpc'', ascii ''cgmExpc''),
      (ascii ''ntsCgmExpc'', ascii ''CgmExpc'', ascii ''cgmExpc''),
      (ascii ''kcsCgmExpc'', ascii ''CgmExpc'', ascii ''cgmExpc''),
      (ascii ''ttSpecialDecc'', ascii ''DeccSearch'', ascii ''Decc''),
      (ascii ''kmstSpecialDecc'', ascii ''DeccSearch'', ascii ''Decc'')]"

text \<open>The two messages of the resolver itself: no response, and parse failure.\<close>

definition NO_RESPONSE :: ustr where
  "NO_RESPONSE = [0xC751, 0xB2F5, 0x20, 0xC5C6, 0xC74C]"

definition PARSE_FAILURE :: ustr where
  "PARSE_FAILURE =
     [0xB370, 0xC774, 0xD130, 0x20, 0xAD6C, 0xC870, 0x20, 0xD30C, 0xC2F1, 0x20, 0xC2E4, 0xD328]"

type_synonym extracted = "json list \<times> int \<times> ustr option"

text \<open>\<open>if isinstance(items, dict): items = [items]\<close>\<close>

fun wrap_mapping :: "json \<Rightarrow> json" where
  "wrap_mapping (JDict d) = JList [JDict d]"
| "wrap_mapping v = v"

text \<open>
  What both loops read under an envelope: when \<open>outer_key\<close> is in the object and its value
  is a mapping, \<open>inner.get(inner_key, [])\<close>, a single mapping wrapped.
\<close>

definition envelope_items :: "dict \<Rightarrow> ustr \<Rightarrow> ustr \<Rightarrow> json option" where
  "envelope_items result outer_key inner_key =
     (case map_of result outer_key of
        Some (JDict inner) \<Rightarrow>
          Some (wrap_mapping (case map_of inner inner_key of None \<Rightarrow> JList [] | Some v \<Rightarrow> v))
      | _ \<Rightarrow> None)"

text \<open>Lines 96 to 105: the structure of the given target. \<open>None\<close> is falling through.\<close>

definition try_target :: "dict \<Rightarrow> ustr option \<Rightarrow> extracted option" where
  "try_target result target =
     (case target of
        None \<Rightarrow> None
      | Some t \<Rightarrow>
          if t = [] then None
          else
            (case map_of RESPONSE_STRUCTURE_MAP t of
               None \<Rightarrow> None
             | Some (outer_key, inner_key) \<Rightarrow>
                 (case envelope_items result outer_key inner_key of
                    Some (JList items) \<Rightarrow> Some (items, int (length items), None)
                  | _ \<Rightarrow> None)))"

text \<open>Lines 107 to 116: every known structure, in the order of \<open>values()\<close>.\<close>

fun try_known_structures :: "(ustr \<times> ustr) list \<Rightarrow> dict \<Rightarrow> extracted option" where
  "try_known_structures [] result = None"
| "try_known_structures ((outer_key, inner_key) # rest) result =
     (case envelope_items result outer_key inner_key of
        Some (JList items) \<Rightarrow>
          if items \<noteq> [] then Some (items, int (length items), None)
          else try_known_structures rest result
      | _ \<Rightarrow> try_known_structures rest result)"

text \<open>Lines 118 to 125: data directly under a generic key.\<close>

fun try_direct_keys :: "ustr list \<Rightarrow> dict \<Rightarrow> extracted option" where
  "try_direct_keys [] result = None"
| "try_direct_keys (key # rest) result =
     (case map_of result key of
        Some (JList value) \<Rightarrow> Some (value, int (length value), None)
      | Some (JDict value) \<Rightarrow> Some ([JDict value], 1, None)
      | _ \<Rightarrow> try_direct_keys rest result)"

text \<open>The generic keys; the first is Hangul (U+BC95 U+B839).\<close>

definition direct_keys :: "ustr list" where
  "direct_keys =
     [[0xBC95, 0xB839], ascii ''Law'', ascii ''items'', ascii ''data'', ascii ''result'']"

text \<open>Lines 107 to 127: what runs when the target's structure did not return.\<close>

definition after_target :: "dict \<Rightarrow> extracted" where
  "after_target result =
     (case try_known_structures (map snd RESPONSE_STRUCTURE_MAP) result of
        Some r \<Rightarrow> r
      | None \<Rightarrow>
          (case try_direct_keys direct_keys result of
             Some r \<Rightarrow> r
           | None \<Rightarrow> ([], 0, Some PARSE_FAILURE)))"

definition extract_items_from_response :: "dict \<Rightarrow> ustr option \<Rightarrow> extracted" where
  "extract_items_from_response result target =
     (if result = [] then ([], 0, Some NO_RESPONSE)
      else
        (case map_of result (ascii ''Law'') of
           Some (JStr msg) \<Rightarrow> ([], 0, Some msg)
         | _ \<Rightarrow>
             (case try_target result target of
                Some r \<Rightarrow> r
              | None \<Rightarrow> after_target result)))"

record normalized_result =
  success :: bool
  items :: "json list"
  total_count :: int
  error :: "ustr option"
  raw_keys :: "ustr list"

text \<open>
  \<open>normalize_response\<close> raises when cleaning an item raises; otherwise it returns the
  record.
\<close>

definition normalize_response ::
  "entities \<Rightarrow> dict \<Rightarrow> ustr option \<Rightarrow> bool \<Rightarrow> exn + normalized_result" where
  "normalize_response html5 result target clean_html =
     (case extract_items_from_response result target of
        (its, count, err) \<Rightarrow>
          (case (if clean_html \<and> its \<noteq> []
                 then sequence_list (map (clean_search_result html5) its)
                 else Inr its) of
             Inl e \<Rightarrow> Inl e
           | Inr its' \<Rightarrow>
               Inr \<lparr> success = count > 0,
                     items = its',
                     total_count = count,
                     error = err,
                     raw_keys = map fst result \<rparr>))"

section \<open>tools/law\_tools.py: the file cache\<close>

text \<open>
  The cache directory: for each path, the file's modification time as
  \<open>datetime.fromtimestamp\<close> reads it (microseconds of the local clock) and what \<open>json.load\<close>
  reads from it (\<open>None\<close> when it is not JSON). \<open>datetime.now()\<close> is the argument \<open>now\<close>;
  \<open>hashlib.md5(...).hexdigest()\<close> is the argument \<open>md5_hexdigest\<close>.
\<close>

record cache_file =
  st_mtime :: int
  loaded :: "json option"

type_synonym files = "ustr \<rightharpoonup> cache_file"

definition CACHE_DAYS :: int where
  "CACHE_DAYS = 7"

definition timedelta_days :: "int \<Rightarrow> int" where
  "timedelta_days d = d * 86400000000"

definition get_cache_key :: "(ustr \<Rightarrow> ustr) \<Rightarrow> ustr \<Rightarrow> ustr \<Rightarrow> ustr" where
  "get_cache_key md5_hexdigest law_id section' = md5_hexdigest (law_id @ ascii ''_'' @ section')"

definition get_cache_path :: "ustr \<Rightarrow> ustr \<Rightarrow> ustr" where
  "get_cache_path CACHE_DIR cache_key = CACHE_DIR @ ascii ''/'' @ cache_key @ ascii ''.json''"

definition is_cache_valid :: "files \<Rightarrow> int \<Rightarrow> ustr \<Rightarrow> bool" where
  "is_cache_valid fs now cache_path =
     (case fs cache_path of
        None \<Rightarrow> False
      | Some f \<Rightarrow> st_mtime f > now - timedelta_days CACHE_DAYS)"

text \<open>
  \<open>load_from_cache\<close> returns the loaded data (\<open>JNone\<close> for Python's \<open>None\<close>) and the files
  after the call. Any exception while reading gives \<open>None\<close>.
\<close>

definition load_from_cache :: "ustr \<Rightarrow> files \<Rightarrow> int \<Rightarrow> ustr \<Rightarrow> json \<times> files" where
  "load_from_cache CACHE_DIR fs now cache_key =
     (let cache_file = get_cache_path CACHE_DIR cache_key in
      case fs cache_file of
        None \<Rightarrow> (JNone, fs)
      | Some f \<Rightarrow>
          if \<not> is_cache_valid fs now cache_file then (JNone, fs(cache_file := None))
          else
            (case loaded f of
               Some (JDict cache_data) \<Rightarrow>
                 (case map_of cache_data (ascii ''data'') of
                    Some v \<Rightarrow> (v, fs)
                  | None \<Rightarrow> (JNone, fs))
             | _ \<Rightarrow> (JNone, fs)))"

section \<open>tools/law\_tools.py: the search-result formatter\<close>

subsection \<open>Operations on Python objects\<close>



















subsection \<open>What the formatter takes from outside\<close>

text \<open>
  The formatter reaches these through calls; they are arguments here.
  \<^item> \<open>repr_value\<close>: \<open>str()\<close> of a float, a list or a dictionary.
  \<^item> \<open>str_lower\<close>: \<open>str.lower()\<close>.
  \<^item> \<open>str_exception\<close>: \<open>str(e)\<close> of a caught exception.
  \<^item> \<open>utils_clean_html_tags\<close>: the \<open>clean_html_tags\<close> that \<open>law_tools.py\<close> imports from
    \<open>utils/law_tools_utils.py\<close>, a module that is not among the sources.
  \<^item> \<open>format_law_service_history\<close>: \<open>_format_law_service_history\<close> (lines 307 to 489), which
    catches its own exceptions and returns a string.
  \<^item> \<open>make_legislation_request\<close>: what \<open>_make_legislation_request(target, params, is_detail)\<close>
    returns or raises, that is, the reply of the upstream server to the HTTP request.
\<close>

record env =
  repr_value :: "json \<Rightarrow> ustr"
  str_lower :: "ustr \<Rightarrow> ustr"
  str_exception :: "exn \<Rightarrow> ustr"
  utils_clean_html_tags :: "json \<Rightarrow> exn + json"
  format_law_service_history :: "dict \<Rightarrow> ustr \<Rightarrow> ustr"
  make_legislation_request :: "ustr \<Rightarrow> dict \<Rightarrow> bool \<Rightarrow> exn + dict"



subsection \<open>Lines 601 to 770: finding the result array\<close>












subsection \<open>Lines 788 to 812: exact matches first\<close>




subsection \<open>Lines 823 to 886: the title of an item\<close>








subsection \<open>Lines 888 to 962: the detail fields\<close>






subsection \<open>Lines 3048 to 3098: \<open>_find_mst_from_law_id\<close>\<close>





subsection \<open>Lines 964 to 1099: the hint for the next call\<close>





subsection \<open>Lines 1101 to 1112: the articles of a custom classification\<close>



subsection \<open>Lines 598 to 1122: \<open>_format_search_results\<close>\<close>





section \<open>Devices of the proofs\<close>

text \<open>
  A text in which the tag pattern matches nowhere: after each \<open><\<close> comes a \<open>>\<close> at once,
  or no \<open>>\<close> at all.
\<close>

fun no_tag :: "ustr \<Rightarrow> bool" where
  "no_tag [] = True"
| "no_tag (c # cs) =
     ((c \<noteq> LT \<or> takeWhile (\<lambda>d. d \<noteq> GT) cs = [] \<or> dropWhile (\<lambda>d. d \<noteq> GT) cs = [])
      \<and> no_tag cs)"

text \<open>
  A text whose white space is collapsed: every white-space character is a single space
  followed by a character that is not white space, or by the end.
\<close>

fun ws_normal :: "ustr \<Rightarrow> bool" where
  "ws_normal [] = True"
| "ws_normal (c # cs) =
     ((\<not> is_space c \<or> (c = SP \<and> takeWhile is_space cs = [])) \<and> ws_normal cs)"

text \<open>
  The entries of \<open>html.entities.html5\<close> for \<open>amp\<close>, \<open>lt\<close>, \<open>gt\<close>, \<open>quot\<close> (with and without
  the semicolon) and \<open>apos;\<close>: the part of the table the examples below look up.
\<close>

definition html5_sample :: entities where
  "html5_sample =
     map_of
       [(ascii ''amp'', ascii ''&''), (ascii ''amp;'', ascii ''&''),
        (ascii ''lt'', ascii ''<''), (ascii ''lt;'', ascii ''<''),
        (ascii ''gt'', ascii ''>''), (ascii ''gt;'', ascii ''>''),
        (ascii ''quot'', [34]), (ascii ''quot;'', [34]), (ascii ''apos;'', [39])]"

subsection \<open>An environment and a response for the examples\<close>







section \<open>Properties of the envelope resolver\<close>

lemma try_known_structures_len:
  "try_known_structures es result = Some (its, n, e) \<Longrightarrow> n = int (length its)"
proof (induction es)
  case Nil
  then show ?case by simp
next
  case (Cons p rest)
  obtain ok ik where p: "p = (ok, ik)" by (cases p)
  show ?case
  proof (cases "envelope_items result ok ik")
    case None
    with Cons p show ?thesis by simp
  next
    case (Some v)
    with Cons p show ?thesis
      by (cases v) (simp_all split: if_splits)
  qed
qed

lemma try_direct_keys_len:
  "try_direct_keys ks result = Some (its, n, e) \<Longrightarrow> n = int (length its)"
proof (induction ks)
  case Nil
  then show ?case by simp
next
  case (Cons key rest)
  show ?case
  proof (cases "map_of result key")
    case None
    with Cons show ?thesis by simp
  next
    case (Some v)
    with Cons show ?thesis
      by (cases v) auto
  qed
qed

lemma try_target_len:
  "try_target result target = Some (its, n, e) \<Longrightarrow> n = int (length its)"
proof -
  assume a: "try_target result target = Some (its, n, e)"
  then obtain t where t: "target = Some t" "t \<noteq> []"
    by (cases target) (auto simp add: try_target_def split: if_splits)
  with a obtain ok ik where m: "map_of RESPONSE_STRUCTURE_MAP t = Some (ok, ik)"
    by (cases "map_of RESPONSE_STRUCTURE_MAP t") (auto simp add: try_target_def)
  show ?thesis
  proof (cases "envelope_items result ok ik")
    case None
    with a t m show ?thesis by (simp add: try_target_def)
  next
    case (Some v)
    with a t m show ?thesis
      by (cases v) (auto simp add: try_target_def)
  qed
qed

lemma after_target_len:
  "after_target result = (its, n, e) \<Longrightarrow> n = int (length its)"
  by (auto simp add: after_target_def split: option.splits
      dest: try_known_structures_len try_direct_keys_len)


lemma extract_unfold:
  "extract_items_from_response result target =
     (if result = [] then ([], 0, Some NO_RESPONSE)
      else if \<exists>msg. map_of result (ascii ''Law'') = Some (JStr msg)
      then ([], 0, map_option (\<lambda>v. case v of JStr msg \<Rightarrow> msg | _ \<Rightarrow> []) (map_of result (ascii ''Law'')))
      else (case try_target result target of Some r \<Rightarrow> r | None \<Rightarrow> after_target result))"
proof (cases "map_of result (ascii ''Law'')")
  case None
  then show ?thesis by (simp add: extract_items_from_response_def)
next
  case (Some v)
  then show ?thesis by (cases v) (simp_all add: extract_items_from_response_def)
qed

text \<open>
  Claim C10. For every response object and target, the count that
  \<open>extract_items_from_response\<close> returns is the length of the items it returns, on every
  path: no response, the upstream error string, the target's structure, the scan of the
  known structures, the generic keys (a single mapping wrapped) and the parse failure.
\<close>

theorem extract_count_is_length:
  "fst (snd (extract_items_from_response result target)) =
     int (length (fst (extract_items_from_response result target)))"
proof (cases "try_target result target")
  case None
  obtain its n e where r: "after_target result = (its, n, e)"
    by (cases "after_target result")
  from after_target_len [OF r] None r show ?thesis
    by (simp add: extract_unfold)
next
  case (Some x)
  obtain its n e where r: "x = (its, n, e)" by (cases x)
  from try_target_len [of result target its n e] Some r show ?thesis
    by (simp add: extract_unfold)
qed

theorem extract_count_is_length_witness:
  "fst (snd (extract_items_from_response
        [(ascii ''PrecSearch'', JDict [(ascii ''prec'', JList [JInt 1, JInt 2])])] None)) =
     int (length (fst (extract_items_from_response
        [(ascii ''PrecSearch'', JDict [(ascii ''prec'', JList [JInt 1, JInt 2])])] None)))"
  by (rule extract_count_is_length)

text \<open>
  Claim C4. An object that holds a string under the key \<open>Law\<close> is an upstream error: the
  resolver returns no items, the count 0 and that string as the error, whatever the
  target. The witness is the object whose \<open>Law\<close> is the upstream message for no matching
  law (thirteen code points, Hangul with two spaces).
\<close>

theorem law_string_is_error:
  "map_of result (ascii ''Law'') = Some (JStr msg) \<Longrightarrow>
     extract_items_from_response result target = ([], 0, Some msg)"
  by (auto simp add: extract_items_from_response_def)

theorem law_string_is_error_witness:
  "extract_items_from_response
      [(ascii ''Law'',
        JStr [0xC77C, 0xCE58, 0xD558, 0xB294, 0x20, 0xBC95, 0xB839, 0xC774, 0x20,
              0xC5C6, 0xC2B5, 0xB2C8, 0xB2E4])] None =
     ([], 0,
      Some [0xC77C, 0xCE58, 0xD558, 0xB294, 0x20, 0xBC95, 0xB839, 0xC774, 0x20,
            0xC5C6, 0xC2B5, 0xB2C8, 0xB2E4])"
  by (rule law_string_is_error) simp

text \<open>
  Claim C5. Every result that \<open>normalize_response\<close> returns has \<open>success\<close> exactly when
  \<open>total_count\<close> is positive, for every object, target and \<open>clean_html\<close> flag. It returns
  one whenever \<open>clean_html\<close> is off; with cleaning on it raises only what cleaning an item
  raises.
\<close>

theorem success_iff_positive_count:
  "(\<forall>r. normalize_response html5 result target clean_html = Inr r \<longrightarrow>
        success r = (total_count r > 0)) \<and>
   (\<exists>r. normalize_response html5 result target False = Inr r)"
proof -
  obtain its n e where x: "extract_items_from_response result target = (its, n, e)"
    by (cases "extract_items_from_response result target")
  show ?thesis
    by (auto simp add: normalize_response_def x split: sum.splits)
qed

theorem success_iff_positive_count_witness:
  "normalize_response html5_sample
      [(ascii ''PrecSearch'', JDict [(ascii ''prec'', JList [JDict [(ascii ''id'', JInt 7)]])])]
      None True =
     Inr \<lparr> success = True,
           items = [JDict [(ascii ''id'', JInt 7)]],
           total_count = 1,
           error = None,
           raw_keys = [ascii ''PrecSearch''] \<rparr> \<and>
   success (projr (normalize_response html5_sample
      [(ascii ''PrecSearch'', JDict [(ascii ''prec'', JList [JDict [(ascii ''id'', JInt 7)]])])]
      None True))"
proof -
  let ?R = "[(ascii ''PrecSearch'', JDict [(ascii ''prec'', JList [JDict [(ascii ''id'', JInt 7)]])])]"
  have x: "extract_items_from_response ?R None = ([JDict [(ascii ''id'', JInt 7)]], 1, None)"
    by (simp add: extract_items_from_response_def try_target_def after_target_def
        RESPONSE_STRUCTURE_MAP_def envelope_items_def ascii_def)
  have n: "normalize_response html5_sample ?R None True =
     Inr \<lparr> success = True, items = [JDict [(ascii ''id'', JInt 7)]], total_count = 1,
           error = None, raw_keys = [ascii ''PrecSearch''] \<rparr>"
    unfolding normalize_response_def x
    by (simp add: clean_search_result_def not_listed_def search_result_fields_def ascii_def)
  from success_iff_positive_count [of html5_sample ?R None True] n
  have "success (projr (normalize_response html5_sample ?R None True))"
    by simp
  with n show ?thesis by simp
qed

lemma table_entries:
  "(t, ok, ik) \<in> set RESPONSE_STRUCTURE_MAP \<Longrightarrow>
     t \<noteq> [] \<and> ok \<noteq> ascii ''Law'' \<and> ok \<notin> set direct_keys"
  unfolding RESPONSE_STRUCTURE_MAP_def direct_keys_def ascii_def by auto

text \<open>
  Claim C1. For every target of \<open>RESPONSE_STRUCTURE_MAP\<close>, with its entry
  \<open>(outer_key, inner_key)\<close>, the resolver called with that target on the object
  \<open>{outer_key: {inner_key: [r]}}\<close> returns the items \<open>[r]\<close>, the count 1 and no error, for
  any record \<open>r\<close>.
\<close>

theorem known_envelope_single_record:
  assumes "map_of RESPONSE_STRUCTURE_MAP target = Some (outer_key, inner_key)"
  shows "extract_items_from_response [(outer_key, JDict [(inner_key, JList [r])])] (Some target)
           = ([r], 1, None)"
proof -
  from assms have "(target, outer_key, inner_key) \<in> set RESPONSE_STRUCTURE_MAP"
    by (rule map_of_SomeD)
  then have "target \<noteq> []" and "outer_key \<noteq> ascii ''Law''"
    using table_entries by blast+
  with assms show ?thesis
    by (simp add: extract_items_from_response_def try_target_def envelope_items_def)
qed

lemma map_of_prec:
  "map_of RESPONSE_STRUCTURE_MAP (ascii ''prec'') = Some (ascii ''PrecSearch'', ascii ''prec'')"
  by (simp add: RESPONSE_STRUCTURE_MAP_def ascii_def)

theorem known_envelope_single_record_witness:
  "extract_items_from_response
      [(ascii ''PrecSearch'', JDict [(ascii ''prec'', JList [JDict [(ascii ''id'', JInt 7)]])])]
      (Some (ascii ''prec''))
     = ([JDict [(ascii ''id'', JInt 7)]], 1, None)"
  by (rule known_envelope_single_record [OF map_of_prec])

lemma scan_string_only:
  "try_known_structures es [(ok, JDict [(ik, JStr s)])] = None"
proof (induction es)
  case Nil
  show ?case by simp
next
  case (Cons p rest)
  obtain ok' ik' where p: "p = (ok', ik')" by (cases p)
  show ?case using Cons p by (simp add: envelope_items_def)
qed

lemma direct_keys_absent:
  "ok \<notin> set ks \<Longrightarrow> try_direct_keys ks [(ok, v)] = None"
  by (induction ks) auto

text \<open>
  Claim C3, at the inputs where it fails. For every target of the table, when the object
  is \<open>{outer_key: {inner_key: s}}\<close> with a string \<open>s\<close> where the result array should be, the
  resolver returns no items and the count 0, but with the parse-failure message as the error:
  the string falls through the target's structure, the scan and the generic keys.
\<close>

theorem string_under_envelope_is_parse_failure:
  assumes "map_of RESPONSE_STRUCTURE_MAP target = Some (outer_key, inner_key)"
  shows "extract_items_from_response [(outer_key, JDict [(inner_key, JStr s)])] (Some target)
           = ([], 0, Some PARSE_FAILURE)"
proof -
  from assms have "(target, outer_key, inner_key) \<in> set RESPONSE_STRUCTURE_MAP"
    by (rule map_of_SomeD)
  then have "target \<noteq> []" and "outer_key \<noteq> ascii ''Law''" and "outer_key \<notin> set direct_keys"
    using table_entries by blast+
  with assms show ?thesis
    by (simp add: extract_items_from_response_def try_target_def envelope_items_def
        after_target_def scan_string_only direct_keys_absent)
qed

lemma map_of_ppc:
  "map_of RESPONSE_STRUCTURE_MAP (ascii ''ppc'') = Some (ascii ''Ppc'', ascii ''ppc'')"
  by (simp add: RESPONSE_STRUCTURE_MAP_def ascii_def)

theorem string_under_envelope_is_parse_failure_witness:
  "extract_items_from_response [(ascii ''Ppc'', JDict [(ascii ''ppc'', JStr [])])]
      (Some (ascii ''ppc''))
     = ([], 0, Some PARSE_FAILURE)"
  by (rule string_under_envelope_is_parse_failure [OF map_of_ppc])


lemma map_of_law:
  "map_of RESPONSE_STRUCTURE_MAP (ascii ''law'') = Some (ascii ''LawSearch'', ascii ''law'')"
  by (simp add: RESPONSE_STRUCTURE_MAP_def ascii_def)

text \<open>
  Claim C2 as it is stated fails. With the target \<open>law\<close> and the object
  \<open>{"LawSearch": {"law": []}, "PrecSearch": {"prec": [{"id": 7}]}}\<close>, the target's structure
  returns the empty sequence with the count 0 and no error, and that is the resolver's
  result; the scan that the claim says comes next would have returned the one \<open>prec\<close>
  record.
\<close>

theorem empty_target_result_counterexample:
  "try_target
      [(ascii ''LawSearch'', JDict [(ascii ''law'', JList [])]),
       (ascii ''PrecSearch'', JDict [(ascii ''prec'', JList [JDict [(ascii ''id'', JInt 7)]])])]
      (Some (ascii ''law'')) = Some ([], 0, None) \<and>
   extract_items_from_response
      [(ascii ''LawSearch'', JDict [(ascii ''law'', JList [])]),
       (ascii ''PrecSearch'', JDict [(ascii ''prec'', JList [JDict [(ascii ''id'', JInt 7)]])])]
      (Some (ascii ''law'')) = ([], 0, None) \<and>
   after_target
      [(ascii ''LawSearch'', JDict [(ascii ''law'', JList [])]),
       (ascii ''PrecSearch'', JDict [(ascii ''prec'', JList [JDict [(ascii ''id'', JInt 7)]])])]
     = ([JDict [(ascii ''id'', JInt 7)]], 1, None)"
proof -
  let ?R = "[(ascii ''LawSearch'', JDict [(ascii ''law'', JList [])]),
       (ascii ''PrecSearch'', JDict [(ascii ''prec'', JList [JDict [(ascii ''id'', JInt 7)]])])]"
  have t: "try_target ?R (Some (ascii ''law'')) = Some ([], 0, None)"
    by (simp add: try_target_def map_of_law) (simp add: envelope_items_def ascii_def)
  have "map_of ?R (ascii ''Law'') = None"
    by (simp add: ascii_def)
  with t have e: "extract_items_from_response ?R (Some (ascii ''law'')) = ([], 0, None)"
    by (simp add: extract_items_from_response_def)
  have a: "after_target ?R = ([JDict [(ascii ''id'', JInt 7)]], 1, None)"
    by (simp add: after_target_def RESPONSE_STRUCTURE_MAP_def envelope_items_def ascii_def)
  from t e a show ?thesis by simp
qed

text \<open>
  Claim C2, amended. When the target is in the table, its outer key is in the object
  with a mapping as value, and the object holds no error string under \<open>Law\<close>: if the value
  under the inner key (the empty sequence when the key is absent), a single mapping
  wrapped, is a sequence, the resolver returns it with its length and no error, empty or
  not; if it is anything else, the resolver goes on to the scan of all known structures
  and what follows it.
\<close>

theorem target_structure_returns_any_sequence:
  assumes "map_of RESPONSE_STRUCTURE_MAP t = Some (outer_key, inner_key)"
    and "map_of result outer_key = Some (JDict inner)"
    and "\<nexists>msg. map_of result (ascii ''Law'') = Some (JStr msg)"
  shows "extract_items_from_response result (Some t) =
           (case wrap_mapping (case map_of inner inner_key of None \<Rightarrow> JList [] | Some v \<Rightarrow> v) of
              JList its \<Rightarrow> (its, int (length its), None)
            | _ \<Rightarrow> after_target result)"
proof -
  from assms(1) have "(t, outer_key, inner_key) \<in> set RESPONSE_STRUCTURE_MAP"
    by (rule map_of_SomeD)
  then have t: "t \<noteq> []" using table_entries by blast
  from assms(2) have r: "result \<noteq> []" by auto
  define w where "w = wrap_mapping (case map_of inner inner_key of None \<Rightarrow> JList [] | Some v \<Rightarrow> v)"
  have env: "envelope_items result outer_key inner_key = Some w"
    using assms(2) by (simp add: envelope_items_def w_def)
  have tt: "try_target result (Some t) =
              (case w of JList its \<Rightarrow> Some (its, int (length its), None) | _ \<Rightarrow> None)"
    using t assms(1) env by (simp add: try_target_def)
  have ex: "extract_items_from_response result (Some t) =
              (case try_target result (Some t) of Some x \<Rightarrow> x | None \<Rightarrow> after_target result)"
  proof (cases "map_of result (ascii ''Law'')")
    case None
    with r show ?thesis by (simp add: extract_items_from_response_def)
  next
    case (Some v)
    with r assms(3) show ?thesis by (cases v) (simp_all add: extract_items_from_response_def)
  qed
  show ?thesis unfolding ex tt w_def [symmetric] by (cases w) simp_all
qed

theorem target_structure_returns_any_sequence_witness:
  "extract_items_from_response
      [(ascii ''LawSearch'', JDict [(ascii ''law'', JList [])])] (Some (ascii ''law''))
     = ([], 0, None)"
proof -
  have "map_of [(ascii ''LawSearch'', JDict [(ascii ''law'', JList [])])] (ascii ''LawSearch'')
          = Some (JDict [(ascii ''law'', JList [])])"
    by simp
  moreover have "\<nexists>msg. map_of [(ascii ''LawSearch'', JDict [(ascii ''law'', JList [])])]
      (ascii ''Law'') = Some (JStr msg)"
    by (simp add: ascii_def)
  ultimately show ?thesis
    using target_structure_returns_any_sequence [OF map_of_law, of _ "[(ascii ''law'', JList [])]"]
    by simp
qed

section \<open>Properties of the sanitizer\<close>

lemma set_strip_tags: "set (strip_tags x) \<subseteq> set x"
proof (induction x rule: strip_tags.induct)
  case 1
  show ?case by simp
next
  case (2 c cs)
  have "set (tl ys) \<subseteq> set ys" for ys :: ustr
    by (cases ys) auto
  then have "set (tl (dropWhile (\<lambda>d. d \<noteq> GT) cs)) \<subseteq> set cs"
    using set_dropWhileD [of _ "\<lambda>d. d \<noteq> GT" cs] by blast
  with 2 show ?case by auto
qed

lemma no_tag_fixed: "no_tag z \<Longrightarrow> strip_tags z = z"
  by (induction z) auto

lemma takeWhile_strip_tags:
  "takeWhile (\<lambda>d. d \<noteq> GT) cs = [] \<Longrightarrow> takeWhile (\<lambda>d. d \<noteq> GT) (strip_tags cs) = []"
  by (cases cs) (auto split: if_splits)

lemma dropWhile_strip_tags:
  "dropWhile (\<lambda>d. d \<noteq> GT) cs = [] \<Longrightarrow> dropWhile (\<lambda>d. d \<noteq> GT) (strip_tags cs) = []"
  using set_strip_tags [of cs] by (auto simp add: dropWhile_eq_Nil_conv)

lemma no_tag_strip_tags: "no_tag (strip_tags x)"
proof (induction x rule: strip_tags.induct)
  case 1
  show ?case by simp
next
  case (2 c cs)
  then show ?case
    using takeWhile_strip_tags [of cs] dropWhile_strip_tags [of cs] by auto
qed


lemma set_collapse_ws: "set (collapse_ws x) \<subseteq> insert SP (set x)"
proof (induction x rule: collapse_ws.induct)
  case 1
  show ?case by simp
next
  case (2 c cs)
  have "set (dropWhile is_space cs) \<subseteq> set cs"
    using set_dropWhileD [of _ is_space cs] by blast
  with 2 show ?case by auto
qed

lemma set_strip: "set (strip x) \<subseteq> set x"
proof -
  have "set (dropWhile is_space ys) \<subseteq> set ys" for ys
    using set_dropWhileD [of _ is_space ys] by blast
  from this [of "rev (dropWhile is_space x)"] this [of x] show ?thesis
    by (auto simp add: strip_def)
qed

lemma no_tag_append: "no_tag (a @ b) \<Longrightarrow> no_tag a \<and> no_tag b"
proof (induction a)
  case Nil
  then show ?case by simp
next
  case (Cons c a)
  have "takeWhile (\<lambda>d. d \<noteq> GT) (a @ b) = [] \<Longrightarrow> takeWhile (\<lambda>d. d \<noteq> GT) a = []"
    by (cases a) (auto split: if_splits)
  moreover have "dropWhile (\<lambda>d. d \<noteq> GT) (a @ b) = [] \<Longrightarrow> dropWhile (\<lambda>d. d \<noteq> GT) a = []"
    by (auto simp add: dropWhile_eq_Nil_conv)
  ultimately show ?case using Cons by auto
qed

lemma rev_dropWhile_split:
  "ys = rev (dropWhile Q (rev ys)) @ rev (takeWhile Q (rev ys))"
proof -
  have "rev (takeWhile Q (rev ys) @ dropWhile Q (rev ys)) = ys"
    by (simp only: takeWhile_dropWhile_id rev_rev_ident)
  then show ?thesis by (simp only: rev_append)
qed

lemma strip_decomp: "\<exists>pre post. z = pre @ strip z @ post"
proof -
  have "z = takeWhile is_space z @ dropWhile is_space z" by simp
  also have "dropWhile is_space z =
      strip z @ rev (takeWhile is_space (rev (dropWhile is_space z)))"
    unfolding strip_def by (rule rev_dropWhile_split)
  finally show ?thesis by blast
qed

lemma no_tag_strip: "no_tag z \<Longrightarrow> no_tag (strip z)"
proof -
  assume z: "no_tag z"
  obtain pre post where "z = pre @ strip z @ post" using strip_decomp by blast
  with z have "no_tag (pre @ strip z @ post)" by simp
  then show ?thesis using no_tag_append by blast
qed

lemma no_tag_dropWhile: "no_tag z \<Longrightarrow> no_tag (dropWhile Q z)"
proof -
  assume "no_tag z"
  then have "no_tag (takeWhile Q z @ dropWhile Q z)" by simp
  then show ?thesis using no_tag_append by blast
qed

lemma GT_not_space: "\<not> is_space GT"
  by (simp add: is_space_def)

lemma no_tag_collapse_ws: "no_tag z \<Longrightarrow> no_tag (collapse_ws z)"
proof (induction z rule: collapse_ws.induct)
  case 1
  show ?case by simp
next
  case (2 c cs)
  show ?case
  proof (cases "is_space c")
    case True
    then have "c \<noteq> LT" by (auto simp add: is_space_def)
    from 2 True have "no_tag (collapse_ws (dropWhile is_space cs))"
      using no_tag_dropWhile [of cs is_space] by simp
    with True show ?thesis by simp
  next
    case False
    have t: "takeWhile (\<lambda>d. d \<noteq> GT) cs = [] \<Longrightarrow> takeWhile (\<lambda>d. d \<noteq> GT) (collapse_ws cs) = []"
      using GT_not_space by (cases cs) (auto split: if_splits)
    have d: "dropWhile (\<lambda>d. d \<noteq> GT) cs = [] \<Longrightarrow> dropWhile (\<lambda>d. d \<noteq> GT) (collapse_ws cs) = []"
      using set_collapse_ws [of cs] by (auto simp add: dropWhile_eq_Nil_conv)
    from 2 False t d show ?thesis by auto
  qed
qed


lemma takeWhile_collapse_ws:
  "takeWhile is_space w = [] \<Longrightarrow> takeWhile is_space (collapse_ws w) = []"
  by (cases w) (auto split: if_splits)

lemma ws_normal_collapse_ws: "ws_normal (collapse_ws x)"
proof (induction x rule: collapse_ws.induct)
  case 1
  show ?case by simp
next
  case (2 c cs)
  have "takeWhile is_space (dropWhile is_space cs) = []"
    by (metis dropWhile_idem takeWhile_dropWhile_id self_append_conv2 append_self_conv2 takeWhile_eq_Nil_iff dropWhile_eq_Nil_conv hd_dropWhile)
  then have "takeWhile is_space (collapse_ws (dropWhile is_space cs)) = []"
    by (rule takeWhile_collapse_ws)
  with 2 show ?case by auto
qed

lemma ws_normal_fixed: "ws_normal z \<Longrightarrow> collapse_ws z = z"
proof (induction z)
  case Nil
  show ?case by simp
next
  case (Cons c cs)
  have "takeWhile is_space cs = [] \<Longrightarrow> dropWhile is_space cs = cs"
    by (metis append_Nil takeWhile_dropWhile_id)
  with Cons show ?case by auto
qed

lemma ws_normal_append: "ws_normal (a @ b) \<Longrightarrow> ws_normal a \<and> ws_normal b"
proof (induction a)
  case Nil
  then show ?case by simp
next
  case (Cons c a)
  have "takeWhile is_space (a @ b) = [] \<Longrightarrow> takeWhile is_space a = []"
    by (cases a) (auto split: if_splits)
  with Cons show ?case by auto
qed

lemma ws_normal_strip: "ws_normal z \<Longrightarrow> ws_normal (strip z)"
proof -
  assume z: "ws_normal z"
  obtain pre post where "z = pre @ strip z @ post" using strip_decomp by blast
  with z have "ws_normal (pre @ strip z @ post)" by simp
  then show ?thesis using ws_normal_append by blast
qed

lemma strip_strip: "strip (strip z) = strip z"
proof -
  let ?u = "dropWhile is_space z"
  let ?r = "dropWhile is_space (rev ?u)"
  have "dropWhile is_space (rev ?r) = rev ?r"
  proof (cases "?r = []")
    case True
    show ?thesis unfolding True by simp
  next
    case False
    have ne: "?u \<noteq> []"
    proof
      assume e: "?u = []"
      have "?r = []" unfolding e by simp
      with False show False by simp
    qed
    then have h: "\<not> is_space (hd ?u)" by (rule hd_dropWhile)
    have "?u = rev ?r @ rev (takeWhile is_space (rev ?u))" by (rule rev_dropWhile_split)
    with False have "hd (rev ?r) = hd ?u"
      by (metis hd_append2 rev_is_Nil_conv)
    with h False show ?thesis
      by (cases "rev ?r") auto
  qed
  then show ?thesis by (simp add: strip_def)
qed


lemma clean_html_tags_output:
  assumes "clean_html_tags html5 (JStr x) = Inr (JStr y)"
  shows "ws_normal y \<and> strip y = y"
proof (cases "x = []")
  case True
  with assms show ?thesis by (simp add: clean_html_tags_def strip_def)
next
  case False
  with assms obtain u where "y = strip (collapse_ws u)"
    by (auto simp add: clean_html_tags_def split: sum.splits)
  then show ?thesis
    by (simp add: strip_strip ws_normal_strip ws_normal_collapse_ws)
qed

text \<open>
  Claim C6, amended. \<open>clean_html_tags('<strong>...</strong>')\<close> around the two Hangul
  characters U+BBFC U+BC95 returns those two characters; and whenever \<open>clean_html_tags(x)\<close>
  returns a text that tag removal and \<open>html.unescape\<close> leave unchanged (it holds no tag and
  no character reference that decodes), a second call returns the same text.
\<close>

theorem clean_html_tags_example_and_idempotent:
  "clean_html_tags html5 (JStr (ascii ''<strong>'' @ [0xBBFC, 0xBC95] @ ascii ''</strong>''))
     = Inr (JStr [0xBBFC, 0xBC95]) \<and>
   (clean_html_tags html5 (JStr x) = Inr (JStr y) \<and> strip_tags y = y \<and> unescape html5 y = Inr y
      \<longrightarrow> clean_html_tags html5 (JStr y) = clean_html_tags html5 (JStr x))"
proof
  show "clean_html_tags html5 (JStr (ascii ''<strong>'' @ [0xBBFC, 0xBC95] @ ascii ''</strong>''))
          = Inr (JStr [0xBBFC, 0xBC95])"
    by (simp add: clean_html_tags_def ascii_def unescape_def strip_def is_space_def)
next
  show "clean_html_tags html5 (JStr x) = Inr (JStr y) \<and> strip_tags y = y \<and> unescape html5 y = Inr y
      \<longrightarrow> clean_html_tags html5 (JStr y) = clean_html_tags html5 (JStr x)"
  proof
    assume a: "clean_html_tags html5 (JStr x) = Inr (JStr y) \<and> strip_tags y = y \<and>
      unescape html5 y = Inr y"
    then have "ws_normal y \<and> strip y = y" using clean_html_tags_output by blast
    with a show "clean_html_tags html5 (JStr y) = clean_html_tags html5 (JStr x)"
      by (simp add: clean_html_tags_def ws_normal_fixed)
  qed
qed

lemma clean_A_amp_B:
  "clean_html_tags html5_sample (JStr (ascii ''A &amp; B'')) = Inr (JStr (ascii ''A & B''))"
  by (simp add: clean_html_tags_def unescape_def ascii_def match_charref_def is_name_char_def
      replace_charref_def html5_sample_def strip_def is_space_def)

theorem clean_html_tags_example_and_idempotent_witness:
  "clean_html_tags html5_sample (JStr (ascii ''A &amp; B'')) = Inr (JStr (ascii ''A & B'')) \<and>
   clean_html_tags html5_sample (JStr (ascii ''A & B'')) = Inr (JStr (ascii ''A & B''))"
proof -
  have t: "strip_tags (ascii ''A & B'') = ascii ''A & B''"
    by (simp add: ascii_def)
  have u: "unescape html5_sample (ascii ''A & B'') = Inr (ascii ''A & B'')"
    by (simp add: unescape_def ascii_def match_charref_def is_name_char_def)
  from clean_html_tags_example_and_idempotent [of html5_sample "ascii ''A &amp; B''" "ascii ''A & B''"]
    clean_A_amp_B t u
  show ?thesis by simp
qed

lemma unescape_lt_b_gt:
  "unescape html5_sample (ascii ''&lt;b&gt;'') = Inr (ascii ''<b>'')"
  by (simp add: unescape_def ascii_def match_charref_def is_name_char_def replace_charref_def
      html5_sample_def)

text \<open>
  Claim C6 as it is stated fails: idempotence does not hold for every string. The
  references of \<open>&lt;b&gt;\<close> are decoded after the tags are removed, so the first call
  returns \<open><b>\<close>, which the second call removes as a tag.
\<close>

theorem clean_html_tags_not_idempotent_counterexample:
  "clean_html_tags html5_sample (JStr (ascii ''&lt;b&gt;'')) = Inr (JStr (ascii ''<b>'')) \<and>
   clean_html_tags html5_sample (JStr (ascii ''<b>'')) = Inr (JStr []) \<and>
   clean_html_tags html5_sample (JStr (ascii ''<b>'')) \<noteq>
     clean_html_tags html5_sample (JStr (ascii ''&lt;b&gt;''))"
proof -
  have s: "strip_tags (ascii ''&lt;b&gt;'') = ascii ''&lt;b&gt;''"
    by (simp add: ascii_def)
  have 1: "clean_html_tags html5_sample (JStr (ascii ''&lt;b&gt;'')) = Inr (JStr (ascii ''<b>''))"
    unfolding clean_html_tags_def json.case s unescape_lt_b_gt
    by (simp add: ascii_def strip_def is_space_def)
  have 2: "clean_html_tags html5_sample (JStr (ascii ''<b>'')) = Inr (JStr [])"
    by (simp add: clean_html_tags_def ascii_def unescape_def strip_def)
  from 1 2 show ?thesis by (simp add: ascii_def)
qed

lemma strip_tags_no_LT: "LT \<notin> set s \<Longrightarrow> strip_tags s = s"
  by (induction s) auto

text \<open>
  Claim C8, at the input where it fails. \<open>clean_html_tags\<close> returns the empty string for
  \<open>None\<close> and for the empty string; but on the string \<open>&#\<close>, 4301 digits \<open>9\<close>, \<open>;\<close> it returns
  no string: \<open>html.unescape\<close> raises \<open>ValueError\<close> on the decimal reference, and nothing
  catches it.
\<close>

theorem clean_html_tags_raises_on_long_reference:
  "clean_html_tags html5 JNone = Inr (JStr []) \<and>
   clean_html_tags html5 (JStr []) = Inr (JStr []) \<and>
   clean_html_tags html5 (JStr (ascii ''&#'' @ replicate 4301 57 @ ascii '';'')) = Inl ValueError"
proof -
  let ?d = "replicate 4301 (57::nat)"
  have d: "?d = 57 # replicate 4300 57"
    by (simp add: numeral_eq_Suc)
  have lt: "strip_tags (ascii ''&#'' @ ?d @ ascii '';'') = ascii ''&#'' @ ?d @ ascii '';''"
    by (rule strip_tags_no_LT) (simp add: ascii_def)
  have "takeWhile is_digit (?d @ [SEMI]) = ?d @ takeWhile is_digit [SEMI]"
    by (rule takeWhile_append2) (simp add: is_digit_def)
  then have tw: "takeWhile is_digit (?d @ [SEMI]) = ?d"
    by (simp add: is_digit_def)
  have "dropWhile is_digit (?d @ [SEMI]) = dropWhile is_digit [SEMI]"
    by (rule dropWhile_append2) (simp add: is_digit_def)
  then have dw: "dropWhile is_digit (?d @ [SEMI]) = [SEMI]"
    by (simp add: is_digit_def)
  have ne: "?d \<noteq> []" by (simp add: d)
  have m: "match_charref (HASH # ?d @ [SEMI]) = Some (HASH # ?d @ [SEMI], [])"
    by (simp add: match_charref_def tw dw ne)
  have rs: "rstrip_semi (?d @ [SEMI]) = ?d"
    by (simp add: rstrip_semi_def dropWhile_replicate)
  have t1: "take 1 (?d @ [SEMI]) = [57]"
    by (simp add: d)
  have r: "replace_charref html5 (HASH # ?d @ [SEMI]) = Inl ValueError"
    by (simp add: replace_charref_def t1 rs max_str_digits_def)
  have c: "charref_sub html5 (AMP # HASH # ?d @ [SEMI]) = Inl ValueError"
    by (simp add: m r)
  have u: "unescape html5 (ascii ''&#'' @ ?d @ ascii '';'') = Inl ValueError"
    using c by (simp add: unescape_def ascii_def)
  show ?thesis
    unfolding clean_html_tags_def json.case lt u
    by (simp add: ascii_def)
qed

section \<open>Properties of the file cache\<close>

text \<open>
  Claim C7. The cache key that the callers build for a target, an identifier and a section
  is the hash of the three joined by underscores; a cache entry is valid exactly when its
  file exists with a modification time later than now minus seven days; and for an entry
  that is not, \<open>load_from_cache\<close> returns \<open>None\<close> and the file is gone.
\<close>

theorem cache_key_and_ttl:
  "get_cache_key md5_hexdigest (target @ ascii ''_'' @ ident) sec
     = md5_hexdigest (target @ ascii ''_'' @ ident @ ascii ''_'' @ sec) \<and>
   (is_cache_valid fs now p \<longleftrightarrow> (\<exists>f. fs p = Some f \<and> now - 7 * 86400000000 < st_mtime f)) \<and>
   (fs (get_cache_path dir key) = Some f \<and> st_mtime f \<le> now - 7 * 86400000000 \<longrightarrow>
      load_from_cache dir fs now key = (JNone, fs(get_cache_path dir key := None)))"
proof (intro conjI impI)
  show "get_cache_key md5_hexdigest (target @ ascii ''_'' @ ident) sec
     = md5_hexdigest (target @ ascii ''_'' @ ident @ ascii ''_'' @ sec)"
    by (simp add: get_cache_key_def)
next
  show "is_cache_valid fs now p \<longleftrightarrow> (\<exists>f. fs p = Some f \<and> now - 7 * 86400000000 < st_mtime f)"
    by (cases "fs p") (simp_all add: is_cache_valid_def CACHE_DAYS_def timedelta_days_def)
next
  assume "fs (get_cache_path dir key) = Some f \<and> st_mtime f \<le> now - 7 * 86400000000"
  then show "load_from_cache dir fs now key = (JNone, fs(get_cache_path dir key := None))"
    by (simp add: load_from_cache_def Let_def is_cache_valid_def CACHE_DAYS_def timedelta_days_def)
qed

theorem cache_key_and_ttl_witness:
  "load_from_cache (ascii ''/c'')
      [ascii ''/c/k.json'' \<mapsto> \<lparr>st_mtime = 0, loaded = Some (JDict [(ascii ''data'', JInt 1)])\<rparr>]
      (8 * 86400000000) (ascii ''k'')
     = (JNone,
        [ascii ''/c/k.json'' \<mapsto> \<lparr>st_mtime = 0, loaded = Some (JDict [(ascii ''data'', JInt 1)])\<rparr>]
          (ascii ''/c/k.json'' := None)) \<and>
   is_cache_valid
      [ascii ''/c/k.json'' \<mapsto> \<lparr>st_mtime = 0, loaded = Some (JDict [(ascii ''data'', JInt 1)])\<rparr>]
      (6 * 86400000000) (ascii ''/c/k.json'')"
proof -
  let ?fs = "[ascii ''/c/k.json'' \<mapsto> \<lparr>st_mtime = 0, loaded = Some (JDict [(ascii ''data'', JInt 1)])\<rparr>]"
  have p: "get_cache_path (ascii ''/c'') (ascii ''k'') = ascii ''/c/k.json''"
    by (simp add: get_cache_path_def ascii_def)
  note t = cache_key_and_ttl [of id "[]" "[]" "[]" ?fs _ "ascii ''/c/k.json''"
      "ascii ''/c''" "ascii ''k''" "\<lparr>st_mtime = 0, loaded = Some (JDict [(ascii ''data'', JInt 1)])\<rparr>"]
  from t [of "8 * 86400000000"] have
    "load_from_cache (ascii ''/c'') ?fs (8 * 86400000000) (ascii ''k'')
       = (JNone, ?fs(ascii ''/c/k.json'' := None))"
    by (simp add: p)
  moreover from t [of "6 * 86400000000"] have
    "is_cache_valid ?fs (6 * 86400000000) (ascii ''/c/k.json'')"
    by simp
  ultimately show ?thesis by simp
qed

section \<open>Properties of the formatter\<close>

subsection \<open>The example, step by step\<close>




lemma strip_A: "strip (ascii ''A'') = ascii ''A''" "strip (ascii ''001'') = ascii ''001''"
  by (simp_all add: strip_def is_space_def ascii_def)

















subsection \<open>The reply is read for one target only\<close>


























end
